theory Spec2Isabelle
  imports Main "HOL-Library.AList"
begin

section \<open>Values\<close>

text \<open>
  Thrown values. What the collaborators of the client throw are objects: an \<open>Error\<close> with
  its message, or an array of thrown values (the one kind of object with a \<open>length\<close>).
  Both are truthy, and reading \<open>length\<close> off either never fails.
\<close>

datatype exn = Error string | ErrorList "exn list"

text \<open>The class \<open>Uri\<close> of core-js; the client reads its field \<open>uri\<close> only.\<close>

record Uri =
  authority :: string
  path :: string
  uri :: string

type_synonym PluginPackage = string
type_synonym Manifest = string

text \<open>
  The two implementations the client instantiates (\<open>new PluginWeb3Api(uri, plugin)\<close>,
  \<open>new WasmWeb3Api(uri, manifest, apiResolver)\<close>). The leading number is the identity of
  the object: two objects made by two \<open>new\<close> are different objects also when their fields
  agree.
\<close>

datatype Api =
    PluginWeb3Api nat Uri PluginPackage
  | WasmWeb3Api nat Uri Manifest Uri

fun api_id :: "Api \<Rightarrow> nat" where
  "api_id (PluginWeb3Api i u p) = i"
| "api_id (WasmWeb3Api i u m r) = i"

datatype 'u redirect_target = ToUri 'u | ToPlugin PluginPackage

record 'u UriRedirect =
  redirect_from :: 'u
  redirect_to :: "'u redirect_target"

record 'u ClientConfig =
  redirects :: "'u UriRedirect list"

record ('u, 'd) InvokeApiOptions =
  options_uri :: 'u
  "method" :: string
  input :: "(string \<times> 'd) list"
  decode :: bool

record 'd InvokeApiResult =
  data :: "'d option"
  error :: "exn option"

datatype QueryDocument = Document string

datatype query_source = QueryString string | QueryDoc QueryDocument

record 'd QueryApiOptions =
  q_uri :: string
  q_query :: query_source
  q_variables :: "(string \<times> 'd) list"

text \<open>
  The result of \<open>query\<close>. \<open>query_data\<close> is the object \<open>data\<close>, its own keys in insertion
  order, a key whose value is \<open>undefined\<close> holding \<open>None\<close>; the field itself is \<open>None\<close>
  when the result has no \<open>data\<close>.
\<close>

record 'd QueryApiResult =
  query_data :: "(string \<times> 'd option) list option"
  errors :: "exn list option"

section \<open>The client\<close>

text \<open>
  The state of one client: \<open>_apiCache\<close>, \<open>_config\<close>, and the number of implementation
  objects its factories have made so far, which names the next object.
\<close>

record Web3ApiClient =
  apiCache :: "string \<rightharpoonup> Api"
  config :: "Uri ClientConfig"
  instantiated :: nat

text \<open>
  What \<open>resolveUri\<close> decides: nothing found, or the factory it calls and the arguments it
  calls it with. \<open>resolveUri\<close> returns what the factory returned.
\<close>

datatype resolution =
    NotFound
  | FoundPlugin Uri PluginPackage
  | FoundManifest Uri Manifest Uri

text \<open>
  The functions the client imports from core-js and the implementations' \<open>invoke\<close>, as
  parameters. Each may throw. An implementation is handed the client itself and may
  use it, so its \<open>invoke\<close> returns the client's state too. The tracer only records, and is
  left out.
\<close>

record 'd collaborators =
  newUri :: "string \<Rightarrow> exn + Uri"
  createQueryDocument :: "string \<Rightarrow> exn + QueryDocument"
  parseQuery :: "Uri \<Rightarrow> QueryDocument \<Rightarrow> (string \<times> 'd) list
                  \<Rightarrow> exn + (Uri, 'd) InvokeApiOptions list"
  resolveUri :: "Uri \<Rightarrow> Uri UriRedirect list \<Rightarrow> exn + resolution"
  api_invoke :: "Api \<Rightarrow> (Uri, 'd) InvokeApiOptions \<Rightarrow> Web3ApiClient
                  \<Rightarrow> (exn + 'd InvokeApiResult) \<times> Web3ApiClient"

subsection \<open>constructor, redirects\<close>

definition constructor ::
  "(string UriRedirect list \<Rightarrow> exn + Uri UriRedirect list) \<Rightarrow> Uri UriRedirect list
     \<Rightarrow> string ClientConfig \<Rightarrow> exn + Web3ApiClient" where
  "constructor sanitizeUriRedirects getDefaultRedirects cfg =
     (case sanitizeUriRedirects (redirects cfg) of
        Inl e \<Rightarrow> Inl e
      | Inr rs \<Rightarrow>
          Inr \<lparr>apiCache = Map.empty,
               config = \<lparr>redirects = rs @ getDefaultRedirects\<rparr>,
               instantiated = 0\<rparr>)"

definition client_redirects :: "Web3ApiClient \<Rightarrow> Uri UriRedirect list" where
  "client_redirects c = redirects (config c)"

subsection \<open>loadWeb3Api\<close>

text \<open>
  \<open>loadWeb3Api\<close> is an async function with one \<open>await\<close>, on \<open>resolveUri\<close>. Up to there it
  runs at once: it reads the cache and, on a miss, starts the resolution. The rest runs
  when the resolution has settled.
\<close>

datatype load_state = Cached Api | Resolving "exn + resolution"

definition loadWeb3Api_start ::
  "'d collaborators \<Rightarrow> Web3ApiClient \<Rightarrow> Uri \<Rightarrow> load_state" where
  "loadWeb3Api_start K c u =
     (case apiCache c (uri u) of
        Some api \<Rightarrow> Cached api
      | None \<Rightarrow> Resolving (resolveUri K u (client_redirects c)))"

text \<open>
  The two factories \<open>loadWeb3Api\<close> passes to \<open>resolveUri\<close>, and the rest of
  \<open>loadWeb3Api\<close>. In the message of its error the Uri is printed as its \<open>uri\<close>.
\<close>

fun instantiate :: "nat \<Rightarrow> resolution \<Rightarrow> Api option" where
  "instantiate i NotFound = None"
| "instantiate i (FoundPlugin u p) = Some (PluginWeb3Api i u p)"
| "instantiate i (FoundManifest u m r) = Some (WasmWeb3Api i u m r)"

fun loadWeb3Api_resume ::
  "Web3ApiClient \<Rightarrow> Uri \<Rightarrow> load_state \<Rightarrow> (exn + Api) \<times> Web3ApiClient" where
  "loadWeb3Api_resume c u (Cached api) = (Inr api, c)"
| "loadWeb3Api_resume c u (Resolving (Inl e)) = (Inl e, c)"
| "loadWeb3Api_resume c u (Resolving (Inr res)) =
     (case instantiate (instantiated c) res of
        None \<Rightarrow> (Inl (Error (''Unable to resolve Web3API at uri: '' @ uri u)), c)
      | Some api \<Rightarrow>
          (Inr api, c\<lparr>apiCache := (apiCache c)(uri u \<mapsto> api),
                      instantiated := Suc (instantiated c)\<rparr>))"

definition loadWeb3Api ::
  "'d collaborators \<Rightarrow> Web3ApiClient \<Rightarrow> Uri \<Rightarrow> (exn + Api) \<times> Web3ApiClient" where
  "loadWeb3Api K c u = loadWeb3Api_resume c u (loadWeb3Api_start K c u)"

text \<open>
  Calls made one after the other, each awaited, and calls made together: every one
  started before any has passed its \<open>await\<close>.
\<close>

fun sequential_loadWeb3Api ::
  "'d collaborators \<Rightarrow> Web3ApiClient \<Rightarrow> Uri list \<Rightarrow> (exn + Api) list \<times> Web3ApiClient" where
  "sequential_loadWeb3Api K c [] = ([], c)"
| "sequential_loadWeb3Api K c (u # us) =
     (case loadWeb3Api K c u of
        (r, c1) \<Rightarrow>
          (case sequential_loadWeb3Api K c1 us of (rs, c2) \<Rightarrow> (r # rs, c2)))"

fun resume_all ::
  "Web3ApiClient \<Rightarrow> (Uri \<times> load_state) list \<Rightarrow> (exn + Api) list \<times> Web3ApiClient" where
  "resume_all c [] = ([], c)"
| "resume_all c ((u, st) # ps) =
     (case loadWeb3Api_resume c u st of
        (r, c1) \<Rightarrow> (case resume_all c1 ps of (rs, c2) \<Rightarrow> (r # rs, c2)))"

definition concurrent_loadWeb3Api ::
  "'d collaborators \<Rightarrow> Web3ApiClient \<Rightarrow> Uri list \<Rightarrow> (exn + Api) list \<times> Web3ApiClient" where
  "concurrent_loadWeb3Api K c us =
     resume_all c (map (\<lambda>u. (u, loadWeb3Api_start K c u)) us)"

subsection \<open>invoke\<close>

text \<open>
  \<open>invoke\<close> runs \<open>new Uri\<close> and the start of \<open>loadWeb3Api\<close> at once, and the rest of its
  \<open>try\<close> block after the \<open>await\<close>. \<open>Inl\<close> is a throw; the \<open>catch\<close> is \<open>invoke_finish\<close>.
\<close>

datatype invoke_state = Thrown exn | Loading Uri load_state

definition invoke_start ::
  "'d collaborators \<Rightarrow> Web3ApiClient \<Rightarrow> (string, 'd) InvokeApiOptions \<Rightarrow> invoke_state" where
  "invoke_start K c options =
     (case newUri K (options_uri options) of
        Inl e \<Rightarrow> Thrown e
      | Inr u \<Rightarrow> Loading u (loadWeb3Api_start K c u))"

fun invoke_try ::
  "'d collaborators \<Rightarrow> Web3ApiClient \<Rightarrow> (string, 'd) InvokeApiOptions \<Rightarrow> invoke_state
     \<Rightarrow> (exn + 'd InvokeApiResult) \<times> Web3ApiClient" where
  "invoke_try K c options (Thrown e) = (Inl e, c)"
| "invoke_try K c options (Loading u st) =
     (case loadWeb3Api_resume c u st of
        (Inl e, c1) \<Rightarrow> (Inl e, c1)
      | (Inr api, c1) \<Rightarrow>
          api_invoke K api
            \<lparr>options_uri = u, method = method options, input = input options,
             decode = decode options\<rparr> c1)"

definition invoke_finish ::
  "'d collaborators \<Rightarrow> Web3ApiClient \<Rightarrow> (string, 'd) InvokeApiOptions \<Rightarrow> invoke_state
     \<Rightarrow> (exn + 'd InvokeApiResult) \<times> Web3ApiClient" where
  "invoke_finish K c options st =
     (case invoke_try K c options st of
        (Inl e, c1) \<Rightarrow> (Inr \<lparr>data = None, error = Some e\<rparr>, c1)
      | (Inr r, c1) \<Rightarrow> (Inr r, c1))"

definition invoke ::
  "'d collaborators \<Rightarrow> Web3ApiClient \<Rightarrow> (string, 'd) InvokeApiOptions
     \<Rightarrow> (exn + 'd InvokeApiResult) \<times> Web3ApiClient" where
  "invoke K c options = invoke_finish K c options (invoke_start K c options)"

subsection \<open>query\<close>

text \<open>
  The invocations of one \<open>query\<close> are made in a loop, so each runs up to its \<open>await\<close>
  before the next starts; none has passed it when the loop ends. \<open>Promise.all\<close> gives
  the results in the order of the requests, and rejects if an invocation does.
\<close>

definition as_invoke_options ::
  "(Uri, 'd) InvokeApiOptions \<Rightarrow> (string, 'd) InvokeApiOptions" where
  "as_invoke_options invocation =
     \<lparr>options_uri = uri (options_uri invocation), method = method invocation,
      input = input invocation, decode = True\<rparr>"

fun finish_all ::
  "'d collaborators \<Rightarrow> Web3ApiClient \<Rightarrow> ((string, 'd) InvokeApiOptions \<times> invoke_state) list
     \<Rightarrow> (exn + (string \<times> 'd InvokeApiResult) list) \<times> Web3ApiClient" where
  "finish_all K c [] = (Inr [], c)"
| "finish_all K c ((options, st) # ps) =
     (case invoke_finish K c options st of
        (r, c1) \<Rightarrow>
          (case finish_all K c1 ps of
             (rs, c2) \<Rightarrow>
               (case r of
                  Inl e \<Rightarrow> (Inl e, c2)
                | Inr result \<Rightarrow>
                    (case rs of
                       Inl e \<Rightarrow> (Inl e, c2)
                     | Inr results \<Rightarrow> (Inr ((method options, result) # results), c2)))))"

definition invoke_all ::
  "'d collaborators \<Rightarrow> Web3ApiClient \<Rightarrow> (Uri, 'd) InvokeApiOptions list
     \<Rightarrow> (exn + (string \<times> 'd InvokeApiResult) list) \<times> Web3ApiClient" where
  "invoke_all K c invokeOptions =
     finish_all K c
       (map (\<lambda>invocation.
               (as_invoke_options invocation,
                invoke_start K c (as_invoke_options invocation)))
            invokeOptions)"

text \<open>
  \<open>makeRepeatedUnique\<close>. \<open>counts\<close> is an object made by \<open>{}\<close>, so \<open>counts[name]\<close> also
  finds what \<open>Object.prototype\<close> gives every object: a function or an object, truthy, under
  each of the names below. One added to such a value is a string that is not a number,
  and so is one added to that string; it is stored like a number and is never
  \<open>> 1\<close>.
\<close>

definition object_prototype_names :: "string list" where
  "object_prototype_names =
     [''constructor'', ''hasOwnProperty'', ''isPrototypeOf'', ''propertyIsEnumerable'',
      ''toLocaleString'', ''toString'', ''valueOf'', ''__proto__'',
      ''__defineGetter__'', ''__defineSetter__'', ''__lookupGetter__'',
      ''__lookupSetter__'']"

datatype js_count = Num nat | NotANumber

definition counts_get :: "(string \<rightharpoonup> js_count) \<Rightarrow> string \<Rightarrow> js_count option" where
  "counts_get counts name =
     (case counts name of
        Some v \<Rightarrow> Some v
      | None \<Rightarrow> if name \<in> set object_prototype_names then Some NotANumber else None)"

definition digit_char :: "nat \<Rightarrow> char" where
  "digit_char d = ''0123456789'' ! d"

function string_of_nat :: "nat \<Rightarrow> string" where
  "string_of_nat n =
     (if n < 10 then [digit_char n]
      else string_of_nat (n div 10) @ [digit_char (n mod 10)])"
  by pat_completeness auto
termination
  by (relation "measure id") auto

declare string_of_nat.simps [simp del]

definition reduce_step ::
  "(string \<rightharpoonup> js_count) \<times> string list \<Rightarrow> string
     \<Rightarrow> (string \<rightharpoonup> js_count) \<times> string list" where
  "reduce_step state name =
     (case state of
        (counts, acc) \<Rightarrow>
          (let count =
                 (case counts_get counts name of
                    None \<Rightarrow> Num 1
                  | Some (Num n) \<Rightarrow> Num (n + 1)
                  | Some NotANumber \<Rightarrow> NotANumber);
               uniq =
                 (case count of
                    Num n \<Rightarrow>
                      if n > 1 then name @ ''_'' @ string_of_nat (n - 1) else name
                  | NotANumber \<Rightarrow> name)
           in (counts(name \<mapsto> count), acc @ [uniq])))"

definition makeRepeatedUnique :: "string list \<Rightarrow> string list" where
  "makeRepeatedUnique names = snd (foldl reduce_step (Map.empty, []) names)"

text \<open>
  The renaming as the specification words it: the first occurrence of a name keeps the
  bare name, and a later one takes the suffix \<open>_k\<close>, where \<open>k\<close> counts the occurrences
  before it. \<open>seen\<close> holds the names gone by.
\<close>

fun suffix_repeated :: "string list \<Rightarrow> string list \<Rightarrow> string list" where
  "suffix_repeated seen [] = []"
| "suffix_repeated seen (name # names) =
     (if count_list seen name = 0 then name
      else name @ ''_'' @ string_of_nat (count_list seen name))
     # suffix_repeated (seen @ [name]) names"

text \<open>
  The keys of an object are listed with the array indices first, in ascending order,
  and the other keys after them in the order they were made. An array index is the
  decimal notation of a number below \<open>2^32 - 1\<close>: a key that reads back as the number
  it is the notation of.
\<close>

definition digit_value :: "char \<Rightarrow> nat" where
  "digit_value c = of_char c - 48"

definition index_value :: "string \<Rightarrow> nat" where
  "index_value k = foldl (\<lambda>n c. 10 * n + digit_value c) 0 k"

definition is_array_index :: "string \<Rightarrow> bool" where
  "is_array_index k \<longleftrightarrow>
     string_of_nat (index_value k) = k \<and> index_value k < 4294967295"

fun insert_index :: "string \<Rightarrow> 'v \<Rightarrow> (string \<times> 'v) list \<Rightarrow> (string \<times> 'v) list" where
  "insert_index k v [] = [(k, v)]"
| "insert_index k v (p # ps) =
     (if is_array_index (fst p) \<and> index_value (fst p) < index_value k
      then p # insert_index k v ps
      else (k, v) # p # ps)"

text \<open>
  \<open>data[key] = value\<close> on an object made by \<open>{}\<close>: a key the object has keeps its place
  and takes the value; a new key that is an array index goes to its place among the
  array indices, and any other new key goes last; \<open>__proto__\<close> is the setter of the
  prototype and never becomes a key.
\<close>

definition set_property ::
  "(string \<times> 'v) list \<Rightarrow> string \<times> 'v \<Rightarrow> (string \<times> 'v) list" where
  "set_property obj kv =
     (if fst kv = ''__proto__'' then obj
      else if is_array_index (fst kv) \<and> fst kv \<notin> set (map fst obj)
        then insert_index (fst kv) (snd kv) obj
      else AList.update (fst kv) (snd kv) obj)"

text \<open>
  The \<open>try\<close> block of \<open>query\<close>: the part after the invocations, the part before
  them, and the whole.
\<close>

definition aggregate :: "(string \<times> 'd InvokeApiResult) list \<Rightarrow> 'd QueryApiResult" where
  "aggregate invocations =
     (let methods = map fst invocations;
          resultDatas = map (\<lambda>invocation. data (snd invocation)) invocations;
          errs = List.map_filter (\<lambda>invocation. error (snd invocation)) invocations;
          methods' = makeRepeatedUnique methods;
          d = foldl set_property [] (zip methods' resultDatas)
      in \<lparr>query_data = Some d, errors = (if errs = [] then None else Some errs)\<rparr>)"

definition parse_options ::
  "'d collaborators \<Rightarrow> 'd QueryApiOptions \<Rightarrow> exn + (Uri, 'd) InvokeApiOptions list" where
  "parse_options K options =
     (case (case q_query options of
              QueryString s \<Rightarrow> createQueryDocument K s
            | QueryDoc doc \<Rightarrow> Inr doc) of
        Inl e \<Rightarrow> Inl e
      | Inr queryDocument \<Rightarrow>
          (case newUri K (q_uri options) of
             Inl e \<Rightarrow> Inl e
           | Inr u \<Rightarrow> parseQuery K u queryDocument (q_variables options)))"

definition query_try ::
  "'d collaborators \<Rightarrow> Web3ApiClient \<Rightarrow> 'd QueryApiOptions
     \<Rightarrow> (exn + 'd QueryApiResult) \<times> Web3ApiClient" where
  "query_try K c options =
     (case parse_options K options of
        Inl e \<Rightarrow> (Inl e, c)
      | Inr invokeOptions \<Rightarrow>
          (case invoke_all K c invokeOptions of
             (Inl e, c1) \<Rightarrow> (Inl e, c1)
           | (Inr invocations, c1) \<Rightarrow> (Inr (aggregate invocations), c1)))"

text \<open>
  The \<open>catch\<close> of \<open>query\<close>: \<open>error.length\<close> is truthy for an array that is not empty, and
  for nothing else that is thrown.
\<close>

fun caught_errors :: "exn \<Rightarrow> exn list" where
  "caught_errors (ErrorList (e # es)) = e # es"
| "caught_errors (ErrorList []) = [ErrorList []]"
| "caught_errors (Error m) = [Error m]"

definition query ::
  "'d collaborators \<Rightarrow> Web3ApiClient \<Rightarrow> 'd QueryApiOptions
     \<Rightarrow> (exn + 'd QueryApiResult) \<times> Web3ApiClient" where
  "query K c options =
     (case query_try K c options of
        (Inl e, c1) \<Rightarrow> (Inr \<lparr>query_data = None, errors = Some (caught_errors e)\<rparr>, c1)
      | (Inr r, c1) \<Rightarrow> (Inr r, c1))"

section \<open>The resolver\<close>

text \<open>
  Modelled from the spec: \<open>resolveUri\<close> of core-js, which is not among the sources. It
  keeps the Uris it has visited, starting with the one asked for; it takes the first
  redirect of the list whose \<open>from\<close> is the current Uri; with none it fails with
  \<open>UnresolvedUriError\<close>; a redirect to a factory ends the walk with that factory, called
  on the current Uri; a redirect to a Uri already visited fails with
  \<open>RedirectCycleError\<close>, and to any other Uri the walk goes on from there.
\<close>

function walk :: "Uri UriRedirect list \<Rightarrow> string list \<Rightarrow> Uri \<Rightarrow> exn + resolution" where
  "walk table visited current =
     (case find (\<lambda>r. uri (redirect_from r) = uri current) table of
        None \<Rightarrow> Inl (Error ''UnresolvedUriError'')
      | Some r \<Rightarrow>
          (case redirect_to r of
             ToPlugin p \<Rightarrow> Inr (FoundPlugin current p)
           | ToUri target \<Rightarrow>
               if uri target \<in> set visited then Inl (Error ''RedirectCycleError'')
               else walk table (uri target # visited) target))"
  by pat_completeness auto
termination
proof (relation "measure (\<lambda>(table, visited, current).
    length (filter (\<lambda>r. case redirect_to r of
                           ToUri n \<Rightarrow> uri n \<notin> set visited
                         | ToPlugin p \<Rightarrow> False) table))", goal_cases)
  case 1
  show ?case by simp
next
  case (2 table visited current r target)
  let ?P = "\<lambda>r. case redirect_to r of ToUri n \<Rightarrow> uri n \<notin> set (uri target # visited)
                                     | ToPlugin p \<Rightarrow> False"
  let ?Q = "\<lambda>r. case redirect_to r of ToUri n \<Rightarrow> uri n \<notin> set visited
                                     | ToPlugin p \<Rightarrow> False"
  have PQ: "?Q x" if "?P x" for x
    using that by (auto split: redirect_target.splits)
  have le: "length (filter ?P xs) \<le> length (filter ?Q xs)" for xs
    using PQ by (induction xs) (auto simp del: set_simps)
  have r: "?Q r" "\<not> ?P r"
    using 2(2,3) by simp_all
  have less: "r \<in> set xs \<Longrightarrow> length (filter ?P xs) < length (filter ?Q xs)" for xs
  proof (induction xs)
    case Nil
    then show ?case by simp
  next
    case (Cons a xs)
    show ?case
    proof (cases "a = r")
      case True
      then show ?thesis using r le [of xs] by (simp del: set_simps)
    next
      case False
      then have "length (filter ?P xs) < length (filter ?Q xs)"
        using Cons by simp
      then show ?thesis using PQ [of a] by (auto simp del: set_simps)
    qed
  qed
  from 2(1) have "r \<in> set table"
    by (auto simp: find_Some_iff)
  then show ?case using less by simp
qed

declare walk.simps [simp del]

text \<open>
  Modelled from the spec: \<open>resolveUri\<close> of core-js on a Uri and the redirects of the
  client, the walk started with that Uri as the one visited.
\<close>

definition resolveUri_spec :: "Uri \<Rightarrow> Uri UriRedirect list \<Rightarrow> exn + resolution" where
  "resolveUri_spec u table = walk table [uri u] u"

section \<open>A client to run\<close>

text \<open>
  A redirect list with the chain a.eth, b.eth, c.eth ending in a plugin, a client on
  it, and collaborators: a query parses to the given fields, each a method with one
  argument; the plugin returns its argument, and throws in the method \<open>fail\<close>.
\<close>

definition simple_uri :: "string \<Rightarrow> Uri" where
  "simple_uri s = \<lparr>authority = ''ens'', path = s, uri = ''w3://ens/'' @ s\<rparr>"

definition example_newUri :: "string \<Rightarrow> exn + Uri" where
  "example_newUri s =
     (if s = [] then Inl (Error ''InvalidUriError'')
      else if take 9 s = ''w3://ens/'' then Inr (simple_uri (drop 9 s))
      else Inr (simple_uri s))"

definition example_redirects :: "Uri UriRedirect list" where
  "example_redirects =
     [\<lparr>redirect_from = simple_uri ''a.eth'', redirect_to = ToUri (simple_uri ''b.eth'')\<rparr>,
      \<lparr>redirect_from = simple_uri ''b.eth'', redirect_to = ToUri (simple_uri ''c.eth'')\<rparr>,
      \<lparr>redirect_from = simple_uri ''c.eth'', redirect_to = ToPlugin ''plugin''\<rparr>]"

definition example_client :: Web3ApiClient where
  "example_client =
     \<lparr>apiCache = Map.empty, config = \<lparr>redirects = example_redirects\<rparr>, instantiated = 0\<rparr>"

definition example_plugin ::
  "Api \<Rightarrow> (Uri, nat) InvokeApiOptions \<Rightarrow> Web3ApiClient
     \<Rightarrow> (exn + nat InvokeApiResult) \<times> Web3ApiClient" where
  "example_plugin api options c =
     (if method options = ''fail'' then (Inl (Error ''plugin failed''), c)
      else (Inr \<lparr>data = map_of (input options) ''n'', error = None\<rparr>, c))"

definition example_collaborators :: "(string \<times> nat) list \<Rightarrow> nat collaborators" where
  "example_collaborators calls =
     \<lparr>newUri = example_newUri,
      createQueryDocument =
        (\<lambda>s. if s = [] then Inl (ErrorList [Error ''Syntax Error: Unexpected <EOF>''])
             else Inr (Document s)),
      parseQuery =
        (\<lambda>u doc vars.
           if calls = [] then Inl (Error ''Empty query document found'')
           else Inr (map (\<lambda>call. \<lparr>options_uri = u, method = fst call,
                                   input = [(''n'', snd call)], decode = False\<rparr>)
                      calls)),
      resolveUri = resolveUri_spec,
      api_invoke = example_plugin\<rparr>"

text \<open>The same collaborators with a plugin that throws in the method \<open>m\<close> as well.\<close>

definition example_failing :: "string \<Rightarrow> (string \<times> nat) list \<Rightarrow> nat collaborators" where
  "example_failing m calls =
     (example_collaborators calls)
       \<lparr>api_invoke :=
          (\<lambda>api options c.
             if method options = m then (Inl (Error ''plugin failed''), c)
             else example_plugin api options c)\<rparr>"

definition example_query :: "nat QueryApiOptions" where
  "example_query = \<lparr>q_uri = ''a.eth'', q_query = QueryString ''query'', q_variables = []\<rparr>"

definition example_sanitize :: "string UriRedirect list \<Rightarrow> exn + Uri UriRedirect list" where
  "example_sanitize rs =
     Inr (map (\<lambda>r. \<lparr>redirect_from = simple_uri (redirect_from r),
                     redirect_to = (case redirect_to r of
                                      ToUri s \<Rightarrow> ToUri (simple_uri s)
                                    | ToPlugin p \<Rightarrow> ToPlugin p)\<rparr>) rs)"

definition example_config :: "string ClientConfig" where
  "example_config =
     \<lparr>redirects =
        [\<lparr>redirect_from = ''a.eth'', redirect_to = ToUri ''c.eth''\<rparr>,
         \<lparr>redirect_from = ''c.eth'', redirect_to = ToPlugin ''user plugin''\<rparr>]\<rparr>"

section \<open>The resolver on the chain\<close>

lemma resolve_example_a:
  "resolveUri_spec (simple_uri ''a.eth'') example_redirects
     = Inr (FoundPlugin (simple_uri ''c.eth'') ''plugin'')"
  by (simp add: resolveUri_spec_def walk.simps example_redirects_def simple_uri_def)

lemma resolve_example_b:
  "resolveUri_spec (simple_uri ''b.eth'') example_redirects
     = Inr (FoundPlugin (simple_uri ''c.eth'') ''plugin'')"
  by (simp add: resolveUri_spec_def walk.simps example_redirects_def simple_uri_def)

lemma resolve_example_c:
  "resolveUri_spec (simple_uri ''c.eth'') example_redirects
     = Inr (FoundPlugin (simple_uri ''c.eth'') ''plugin'')"
  by (simp add: resolveUri_spec_def walk.simps example_redirects_def simple_uri_def)

lemma resolve_example_z:
  "resolveUri_spec (simple_uri ''z.eth'') example_redirects
     = Inl (Error ''UnresolvedUriError'')"
  by (simp add: resolveUri_spec_def walk.simps example_redirects_def simple_uri_def)

lemmas resolve_example =
  resolve_example_a resolve_example_b resolve_example_c resolve_example_z

section \<open>invoke\<close>

text \<open>
  C1. \<open>invoke\<close> returns a result for every options value and never throws. A failure
  thrown by \<open>new Uri\<close>, by the resolution in \<open>loadWeb3Api\<close>, or by the implementation's
  own \<open>invoke\<close> (a plugin method that throws) is the \<open>error\<close> of the result, with no data.
  The same holds of an invocation that resumes after its \<open>await\<close> in any state of the
  client.
\<close>

theorem invoke_never_raises:
  "\<exists>r. fst (invoke K c options) = Inr r \<and>
     (\<forall>e. newUri K (options_uri options) = Inl e \<longrightarrow> r = \<lparr>data = None, error = Some e\<rparr>) \<and>
     (\<forall>u e. newUri K (options_uri options) = Inr u \<longrightarrow> fst (loadWeb3Api K c u) = Inl e
        \<longrightarrow> r = \<lparr>data = None, error = Some e\<rparr>) \<and>
     (\<forall>u api c1 e. newUri K (options_uri options) = Inr u
        \<longrightarrow> loadWeb3Api K c u = (Inr api, c1)
        \<longrightarrow> fst (api_invoke K api
                   \<lparr>options_uri = u, method = method options, input = input options,
                    decode = decode options\<rparr> c1) = Inl e
        \<longrightarrow> r = \<lparr>data = None, error = Some e\<rparr>) \<and>
     (\<forall>c' st. \<exists>r'. fst (invoke_finish K c' options st) = Inr r')"
  by (auto simp: invoke_def invoke_finish_def invoke_start_def loadWeb3Api_def
      split: sum.splits prod.splits)

theorem invoke_never_raises_witness:
  "fst (invoke (example_collaborators []) example_client
         \<lparr>options_uri = ''a.eth'', method = ''fail'', input = [], decode = False\<rparr>)
     = Inr \<lparr>data = None, error = Some (Error ''plugin failed'')\<rparr>"
  using invoke_never_raises
    [of "example_collaborators []" example_client
        "\<lparr>options_uri = ''a.eth'', method = ''fail'', input = [], decode = False\<rparr>"]
  by (auto simp: example_collaborators_def example_newUri_def example_client_def
      loadWeb3Api_def loadWeb3Api_start_def client_redirects_def resolve_example
      example_plugin_def)

text \<open>
  C7. A Uri that is not in the cache and that the resolution gives no implementation
  for (it returns nothing, or it throws): \<open>invoke\<close> does not throw. Its result has no
  data and holds the failure as its \<open>error\<close>: what the resolution threw, or the
  \<open>Unable to resolve\<close> error of \<open>loadWeb3Api\<close>. The client is left as it was. (The
  cache only ever receives a Uri that has resolved.)
\<close>

theorem invoke_unresolved_uri:
  assumes "newUri K (options_uri options) = Inr u"
    and "apiCache c (uri u) = None"
    and "\<forall>res. resolveUri K u (client_redirects c) = Inr res \<longrightarrow> res = NotFound"
  shows "invoke K c options =
           (Inr \<lparr>data = None,
                 error = Some (case resolveUri K u (client_redirects c) of
                                 Inl e \<Rightarrow> e
                               | Inr res \<Rightarrow>
                                   Error (''Unable to resolve Web3API at uri: '' @ uri u))\<rparr>,
            c)"
  using assms
  by (auto simp: invoke_def invoke_finish_def invoke_start_def loadWeb3Api_start_def
      split: sum.splits prod.splits)

theorem invoke_unresolved_uri_witness:
  "invoke (example_collaborators []) example_client
         \<lparr>options_uri = ''z.eth'', method = ''foo'', input = [], decode = False\<rparr>
     = (Inr \<lparr>data = None, error = Some (Error ''UnresolvedUriError'')\<rparr>, example_client)"
  using invoke_unresolved_uri
    [of "example_collaborators []"
        "\<lparr>options_uri = ''z.eth'', method = ''foo'', input = [], decode = False\<rparr>"
        "simple_uri ''z.eth''" example_client]
  by (simp add: example_collaborators_def example_newUri_def example_client_def
      client_redirects_def resolve_example)

section \<open>constructor\<close>

text \<open>
  C8. When the sanitizer accepts the redirects of the configuration, the client is
  made, and its redirect list is the sanitized redirects followed by the default
  ones. So a scan from the front that some sanitized redirect satisfies stops in the
  sanitized part: it finds what it would find without the defaults.
\<close>

theorem constructor_redirects:
  assumes "sanitizeUriRedirects (redirects cfg) = Inr rs"
  shows "\<exists>c. constructor sanitizeUriRedirects getDefaultRedirects cfg = Inr c \<and>
           client_redirects c = rs @ getDefaultRedirects \<and>
           (\<forall>P. (\<exists>r \<in> set rs. P r) \<longrightarrow> find P (client_redirects c) = find P rs)"
proof -
  have "find P (rs @ ds) = find P rs"
    if "\<exists>r \<in> set rs. P r" for P and ds :: "Uri UriRedirect list"
    using that by (induction rs) auto
  then show ?thesis
    using assms by (simp add: constructor_def client_redirects_def)
qed

theorem constructor_redirects_witness:
  "\<exists>c. constructor example_sanitize example_redirects example_config = Inr c \<and>
     client_redirects c =
       [\<lparr>redirect_from = simple_uri ''a.eth'', redirect_to = ToUri (simple_uri ''c.eth'')\<rparr>,
        \<lparr>redirect_from = simple_uri ''c.eth'', redirect_to = ToPlugin ''user plugin''\<rparr>]
       @ example_redirects \<and>
     find (\<lambda>r. uri (redirect_from r) = uri (simple_uri ''c.eth'')) (client_redirects c)
       = Some \<lparr>redirect_from = simple_uri ''c.eth'', redirect_to = ToPlugin ''user plugin''\<rparr>"
proof -
  have s: "example_sanitize (redirects example_config) =
      Inr [\<lparr>redirect_from = simple_uri ''a.eth'', redirect_to = ToUri (simple_uri ''c.eth'')\<rparr>,
           \<lparr>redirect_from = simple_uri ''c.eth'', redirect_to = ToPlugin ''user plugin''\<rparr>]"
    by (simp add: example_sanitize_def example_config_def)
  from constructor_redirects [of example_sanitize example_config _ example_redirects, OF s]
  show ?thesis
    by (auto simp: simple_uri_def)
qed

section \<open>loadWeb3Api and the cache\<close>

lemma loadWeb3Api_cached:
  "apiCache c (uri u) = Some api \<Longrightarrow> loadWeb3Api K c u = (Inr api, c)"
  by (simp add: loadWeb3Api_def loadWeb3Api_start_def)

lemma instantiate_id: "instantiate i res = Some api \<Longrightarrow> api_id api = i"
  by (cases res) auto

lemma instantiate_found: "res \<noteq> NotFound \<Longrightarrow> \<exists>api. instantiate i res = Some api"
  by (cases res) auto

text \<open>
  A miss that resolves stores the new implementation under the Uri that was asked
  for, and under no other.
\<close>

lemma loadWeb3Api_miss:
  assumes "apiCache c (uri u) = None"
    and "resolveUri K u (client_redirects c) = Inr res"
    and "instantiate (instantiated c) res = Some api"
  shows "loadWeb3Api K c u =
           (Inr api, c\<lparr>apiCache := (apiCache c)(uri u \<mapsto> api),
                       instantiated := Suc (instantiated c)\<rparr>)"
  using assms by (simp add: loadWeb3Api_def loadWeb3Api_start_def)

lemma client_redirects_update:
  "client_redirects (c\<lparr>apiCache := m\<rparr>) = client_redirects c"
  "client_redirects (c\<lparr>instantiated := n\<rparr>) = client_redirects c"
  by (simp_all add: client_redirects_def)

lemma uri_simple: "uri (simple_uri s) = ''w3://ens/'' @ s"
  by (simp add: simple_uri_def)

lemma example_client_fields:
  "apiCache example_client = Map.empty"
  "client_redirects example_client = example_redirects"
  "instantiated example_client = 0"
  by (simp_all add: example_client_def client_redirects_def)

lemma start_example_client:
  "loadWeb3Api_start (example_collaborators calls) example_client u
     = Resolving (resolveUri_spec u example_redirects)"
  by (simp add: loadWeb3Api_start_def example_collaborators_def example_client_def
      client_redirects_def)

text \<open>
  C2. On the chain a.eth, b.eth, c.eth ending in a plugin, a fresh client that loads
  a.eth, then b.eth, then c.eth, each call awaited, walks the chain three times: it
  returns three different objects, all of the plugin at c.eth, and has instantiated
  three. The cache holds each under the Uri asked for; a.eth does not serve b.eth or
  c.eth.
\<close>

theorem loadWeb3Api_chain_instances:
  "fst (sequential_loadWeb3Api (example_collaborators []) example_client
          [simple_uri ''a.eth'', simple_uri ''b.eth'', simple_uri ''c.eth''])
     = [Inr (PluginWeb3Api 0 (simple_uri ''c.eth'') ''plugin''),
        Inr (PluginWeb3Api 1 (simple_uri ''c.eth'') ''plugin''),
        Inr (PluginWeb3Api 2 (simple_uri ''c.eth'') ''plugin'')] \<and>
   instantiated (snd (sequential_loadWeb3Api (example_collaborators []) example_client
          [simple_uri ''a.eth'', simple_uri ''b.eth'', simple_uri ''c.eth''])) = 3"
  by (simp add: loadWeb3Api_def loadWeb3Api_start_def example_collaborators_def
      example_client_fields client_redirects_update resolve_example uri_simple)

lemma resume_all_resolving:
  assumes "res \<noteq> NotFound"
  shows "\<exists>apis c1. resume_all c (replicate n (u, Resolving (Inr res))) = (map Inr apis, c1) \<and>
           map api_id apis = [instantiated c ..< instantiated c + n] \<and>
           instantiated c1 = instantiated c + n \<and>
           (0 < n \<longrightarrow> apiCache c1 (uri u) = Some (last apis))"
proof (induction n arbitrary: c)
  case 0
  show ?case by simp
next
  case (Suc n)
  obtain api where api: "instantiate (instantiated c) res = Some api"
    using assms instantiate_found by blast
  let ?c = "c\<lparr>apiCache := (apiCache c)(uri u \<mapsto> api), instantiated := Suc (instantiated c)\<rparr>"
  obtain apis c1 where rest:
    "resume_all ?c (replicate n (u, Resolving (Inr res))) = (map Inr apis, c1)"
    "map api_id apis = [instantiated ?c ..< instantiated ?c + n]"
    "instantiated c1 = instantiated ?c + n"
    "0 < n \<longrightarrow> apiCache c1 (uri u) = Some (last apis)"
    using Suc.IH [of ?c] by blast
  have "resume_all c (replicate (Suc n) (u, Resolving (Inr res))) = (map Inr (api # apis), c1)"
    using api rest(1) by simp
  moreover have "map api_id (api # apis) = [instantiated c ..< instantiated c + Suc n]"
    using rest(2) instantiate_id [OF api] by (simp add: upt_rec [of "instantiated c"])
  moreover have "instantiated c1 = instantiated c + Suc n"
    using rest(3) by simp
  moreover have "apiCache c1 (uri u) = Some (last (api # apis))"
  proof (cases n)
    case 0
    then show ?thesis using rest(1) by auto
  next
    case (Suc m)
    then have "apis \<noteq> []" using rest(2) by auto
    then show ?thesis using rest(4) Suc by simp
  qed
  ultimately show ?case by blast
qed

text \<open>
  C3, as the code has it. \<open>n\<close> calls of \<open>loadWeb3Api\<close> made together for one Uri that is
  not in the cache and that resolves: each call starts a resolution of its own, none
  waits for another. They return \<open>n\<close> different objects and the client has
  instantiated \<open>n\<close> more. The cache keeps the object stored last, and a call made after
  that returns it and instantiates nothing.
\<close>

theorem concurrent_loadWeb3Api_each_resolves:
  assumes miss: "apiCache c (uri u) = None"
    and found: "resolveUri K u (client_redirects c) = Inr res" "res \<noteq> NotFound"
  shows "\<exists>apis c1. concurrent_loadWeb3Api K c (replicate n u) = (map Inr apis, c1) \<and>
           map api_id apis = [instantiated c ..< instantiated c + n] \<and>
           instantiated c1 = instantiated c + n \<and>
           (0 < n \<longrightarrow> apiCache c1 (uri u) = Some (last apis) \<and>
                      loadWeb3Api K c1 u = (Inr (last apis), c1))"
proof -
  have "loadWeb3Api_start K c u = Resolving (Inr res)"
    using miss found(1) by (simp add: loadWeb3Api_start_def)
  then have eq: "concurrent_loadWeb3Api K c (replicate n u)
      = resume_all c (replicate n (u, Resolving (Inr res)))"
    by (simp add: concurrent_loadWeb3Api_def)
  obtain apis c1 where r:
    "resume_all c (replicate n (u, Resolving (Inr res))) = (map Inr apis, c1)"
    "map api_id apis = [instantiated c ..< instantiated c + n]"
    "instantiated c1 = instantiated c + n"
    "0 < n \<longrightarrow> apiCache c1 (uri u) = Some (last apis)"
    using resume_all_resolving [OF found(2), of c n u] by blast
  have "0 < n \<longrightarrow> loadWeb3Api K c1 u = (Inr (last apis), c1)"
    using r(4) by (simp add: loadWeb3Api_cached)
  then show ?thesis
    using eq r by auto
qed

theorem concurrent_loadWeb3Api_each_resolves_witness:
  "\<exists>apis c1. concurrent_loadWeb3Api (example_collaborators []) example_client
       (replicate 3 (simple_uri ''a.eth'')) = (map Inr apis, c1) \<and>
     map api_id apis = [0..<3] \<and> instantiated c1 = 3 \<and>
     apiCache c1 (uri (simple_uri ''a.eth'')) = Some (last apis) \<and>
     loadWeb3Api (example_collaborators []) c1 (simple_uri ''a.eth'') = (Inr (last apis), c1)"
proof -
  have "apiCache example_client (uri (simple_uri ''a.eth'')) = None"
    by (simp add: example_client_fields)
  moreover have "resolveUri (example_collaborators []) (simple_uri ''a.eth'')
      (client_redirects example_client) = Inr (FoundPlugin (simple_uri ''c.eth'') ''plugin'')"
    by (simp add: example_collaborators_def example_client_fields resolve_example_a)
  ultimately show ?thesis
    using concurrent_loadWeb3Api_each_resolves
      [of example_client "simple_uri ''a.eth''" "example_collaborators []" _ 3]
    by (auto simp: example_client_fields)
qed

text \<open>
  Two calls made together for a.eth on the fresh client: two objects, two
  instantiations, not one.
\<close>

theorem concurrent_loadWeb3Api_counterexample:
  "fst (concurrent_loadWeb3Api (example_collaborators []) example_client
          [simple_uri ''a.eth'', simple_uri ''a.eth''])
     = [Inr (PluginWeb3Api 0 (simple_uri ''c.eth'') ''plugin''),
        Inr (PluginWeb3Api 1 (simple_uri ''c.eth'') ''plugin'')] \<and>
   instantiated (snd (concurrent_loadWeb3Api (example_collaborators []) example_client
          [simple_uri ''a.eth'', simple_uri ''a.eth''])) = 2"
  by (simp add: concurrent_loadWeb3Api_def start_example_client resolve_example_a
      example_client_fields)

section \<open>query\<close>

lemma invoke_finish_returns: "\<exists>r c1. invoke_finish K c options st = (Inr r, c1)"
  by (simp add: invoke_finish_def split: prod.splits sum.splits)

lemma finish_all_returns:
  "\<exists>invocations c1. finish_all K c ps = (Inr invocations, c1) \<and>
     map fst invocations = map (\<lambda>p. method (fst p)) ps"
proof (induction ps arbitrary: c)
  case Nil
  show ?case by simp
next
  case (Cons p ps)
  obtain options st where p: "p = (options, st)"
    by (cases p)
  obtain r c1 where r: "invoke_finish K c options st = (Inr r, c1)"
    using invoke_finish_returns by blast
  obtain invocations c2 where
    "finish_all K c1 ps = (Inr invocations, c2)"
    "map fst invocations = map (\<lambda>p. method (fst p)) ps"
    using Cons.IH by blast
  then show ?case
    by (simp add: p r)
qed

text \<open>
  The invocations of a query never reject, and come back in the order of the
  requests, each under the method of its request.
\<close>

lemma invoke_all_returns:
  "\<exists>invocations c1. invoke_all K c invokeOptions = (Inr invocations, c1) \<and>
     map fst invocations = map method invokeOptions"
proof -
  obtain invocations c1 where
    "invoke_all K c invokeOptions = (Inr invocations, c1)"
    "map fst invocations =
       map (\<lambda>p. method (fst p))
         (map (\<lambda>invocation. (as_invoke_options invocation,
                 invoke_start K c (as_invoke_options invocation))) invokeOptions)"
    unfolding invoke_all_def using finish_all_returns by blast
  then show ?thesis
    by (auto simp: as_invoke_options_def comp_def)
qed

lemma map_filter_all_None:
  "\<forall>x \<in> set xs. f x = None \<Longrightarrow> List.map_filter f xs = []"
  by (induction xs) (auto simp: map_filter_simps)

lemma map_filter_single:
  "i < length xs \<Longrightarrow> f (xs ! i) = Some e
     \<Longrightarrow> \<forall>j < length xs. j \<noteq> i \<longrightarrow> f (xs ! j) = None
     \<Longrightarrow> List.map_filter f xs = [e]"
proof (induction xs arbitrary: i)
  case Nil
  then show ?case by simp
next
  case (Cons x xs)
  show ?case
  proof (cases i)
    case 0
    have "\<forall>y \<in> set xs. f y = None"
    proof
      fix y assume "y \<in> set xs"
      then obtain j where "j < length xs" "xs ! j = y"
        by (auto simp: in_set_conv_nth)
      then show "f y = None"
        using Cons.prems(3) [rule_format, of "Suc j"] 0 by simp
    qed
    then show ?thesis
      using Cons.prems(2) 0 by (simp add: map_filter_simps map_filter_all_None)
  next
    case (Suc i')
    have "f x = None"
      using Cons.prems(3) [rule_format, of 0] Suc by simp
    moreover have "List.map_filter f xs = [e]"
    proof (rule Cons.IH [of i'])
      show "i' < length xs" using Cons.prems(1) Suc by simp
      show "f (xs ! i') = Some e" using Cons.prems(2) Suc by simp
      show "\<forall>j<length xs. j \<noteq> i' \<longrightarrow> f (xs ! j) = None"
        using Cons.prems(3) [rule_format, of "Suc j" for j] Suc by auto
    qed
    ultimately show ?thesis
      by (simp add: map_filter_simps)
  qed
qed

lemma errors_aggregate_None:
  "\<forall>invocation \<in> set invocations. error (snd invocation) = None
     \<Longrightarrow> errors (aggregate invocations) = None"
  by (simp add: aggregate_def Let_def map_filter_all_None)

subsection \<open>The query of the example client\<close>

lemma parse_example:
  "calls \<noteq> [] \<Longrightarrow> parse_options (example_collaborators calls) example_query =
     Inr (map (\<lambda>call. \<lparr>options_uri = simple_uri ''a.eth'', method = fst call,
                        input = [(''n'', snd call)], decode = False\<rparr>) calls)"
  by (simp add: parse_options_def example_collaborators_def example_newUri_def
      example_query_def)

lemma invoke_example:
  "invoke_finish (example_collaborators calls) c
      \<lparr>options_uri = u, method = m, input = [(''n'', n)], decode = d\<rparr>
      (Loading t (Resolving (Inr (FoundPlugin t' p))))
   = ((if m = ''fail'' then Inr \<lparr>data = None, error = Some (Error ''plugin failed'')\<rparr>
       else Inr \<lparr>data = Some n, error = None\<rparr>),
      c\<lparr>apiCache := (apiCache c)(uri t \<mapsto> PluginWeb3Api (instantiated c) t' p),
        instantiated := Suc (instantiated c)\<rparr>)"
  by (simp add: invoke_finish_def example_collaborators_def example_plugin_def)

lemma start_example:
  "invoke_start (example_collaborators calls) example_client
      \<lparr>options_uri = ''w3://ens/'' @ s, method = m, input = i, decode = d\<rparr>
   = Loading (simple_uri s) (Resolving (resolveUri_spec (simple_uri s) example_redirects))"
  by (simp add: invoke_start_def example_collaborators_def example_newUri_def
      example_client_def loadWeb3Api_start_def client_redirects_def)

lemma invoke_all_example:
  "\<exists>c1. invoke_all (example_collaborators calls) example_client
     [\<lparr>options_uri = simple_uri ''a.eth'', method = m1, input = [(''n'', n1)], decode = False\<rparr>,
      \<lparr>options_uri = simple_uri ''a.eth'', method = m2, input = [(''n'', n2)], decode = False\<rparr>,
      \<lparr>options_uri = simple_uri ''a.eth'', method = m3, input = [(''n'', n3)], decode = False\<rparr>]
   = (Inr [(m1, if m1 = ''fail'' then \<lparr>data = None, error = Some (Error ''plugin failed'')\<rparr>
                else \<lparr>data = Some n1, error = None\<rparr>),
           (m2, if m2 = ''fail'' then \<lparr>data = None, error = Some (Error ''plugin failed'')\<rparr>
                else \<lparr>data = Some n2, error = None\<rparr>),
           (m3, if m3 = ''fail'' then \<lparr>data = None, error = Some (Error ''plugin failed'')\<rparr>
                else \<lparr>data = Some n3, error = None\<rparr>)], c1)"
  by (simp add: invoke_all_def as_invoke_options_def uri_simple
      start_example [of _ "''a.eth''", simplified] resolve_example_a invoke_example)

subsection \<open>errors\<close>

text \<open>
  C9. A query that parses and whose invocations all return a result without an
  \<open>error\<close>: the result of the query has data, and its \<open>errors\<close> is absent, not an empty
  list.
\<close>

theorem query_errors_absent:
  assumes "parse_options K options = Inr invokeOptions"
    and "invoke_all K c invokeOptions = (Inr invocations, c1)"
    and "\<forall>invocation \<in> set invocations. error (snd invocation) = None"
  shows "\<exists>r. query K c options = (Inr r, c1) \<and> errors r = None \<and> query_data r \<noteq> None"
  using assms
  by (simp add: query_def query_try_def errors_aggregate_None) (simp add: aggregate_def Let_def)

theorem query_errors_absent_witness:
  "\<exists>r c1. query (example_collaborators [(''foo'', 1), (''bar'', 2), (''baz'', 3)])
             example_client example_query = (Inr r, c1) \<and>
     errors r = None \<and> query_data r \<noteq> None"
proof -
  let ?K = "example_collaborators [(''foo'', 1), (''bar'', 2), (''baz'', 3)]"
  let ?i = "\<lambda>m n. \<lparr>options_uri = simple_uri ''a.eth'', method = m,
                     input = [(''n'', n :: nat)], decode = False\<rparr>"
  have parse: "parse_options ?K example_query = Inr [?i ''foo'' 1, ?i ''bar'' 2, ?i ''baz'' 3]"
    by (simp add: parse_example)
  obtain c1 where run: "invoke_all ?K example_client [?i ''foo'' 1, ?i ''bar'' 2, ?i ''baz'' 3]
      = (Inr [(''foo'', \<lparr>data = Some 1, error = None\<rparr>),
              (''bar'', \<lparr>data = Some 2, error = None\<rparr>),
              (''baz'', \<lparr>data = Some 3, error = None\<rparr>)], c1)"
    using invoke_all_example
        [of "[(''foo'', 1), (''bar'', 2), (''baz'', 3)]" "''foo''" 1 "''bar''" 2 "''baz''" 3]
    by auto
  from query_errors_absent [OF parse run] show ?thesis
    by auto
qed

text \<open>
  C10. \<open>query\<close> returns a result for every options value and never throws. When
  making the query document, \<open>new Uri\<close> or parsing the query throws, no invocation
  runs, the client is left as it was, and the result has no data and holds the
  failure in \<open>errors\<close>: the thrown value itself when it is an array that is not empty,
  and the list of that one value otherwise.
\<close>

theorem query_never_raises:
  "\<exists>r. fst (query K c options) = Inr r \<and>
     (\<forall>e. parse_options K options = Inl e \<longrightarrow>
        query K c options =
          (Inr \<lparr>query_data = None,
                errors = Some (case e of ErrorList (x # xs) \<Rightarrow> x # xs | _ \<Rightarrow> [e])\<rparr>, c))"
proof -
  have "caught_errors e = (case e of ErrorList (x # xs) \<Rightarrow> x # xs | _ \<Rightarrow> [e])" for e
    by (cases e rule: caught_errors.cases) simp_all
  then show ?thesis
    by (auto simp: query_def query_try_def split: sum.splits prod.splits)
qed

theorem query_never_raises_witness:
  "query (example_collaborators []) example_client example_query
     = (Inr \<lparr>query_data = None, errors = Some [Error ''Empty query document found'']\<rparr>,
        example_client) \<and>
   query (example_collaborators []) example_client (example_query\<lparr>q_query := QueryString []\<rparr>)
     = (Inr \<lparr>query_data = None, errors = Some [Error ''Syntax Error: Unexpected <EOF>'']\<rparr>,
        example_client)"
proof -
  have 1: "parse_options (example_collaborators []) example_query
      = Inl (Error ''Empty query document found'')"
    by (simp add: parse_options_def example_collaborators_def example_newUri_def
        example_query_def)
  have 2: "parse_options (example_collaborators [])
        (example_query\<lparr>q_query := QueryString []\<rparr>)
      = Inl (ErrorList [Error ''Syntax Error: Unexpected <EOF>''])"
    by (simp add: parse_options_def example_collaborators_def example_query_def)
  show ?thesis
    using query_never_raises [of "example_collaborators []" example_client example_query]
      query_never_raises [of "example_collaborators []" example_client
        "example_query\<lparr>q_query := QueryString []\<rparr>"]
    by (simp add: 1 2)
qed

subsection \<open>The keys of the result\<close>

lemma reduce_step_acc:
  "\<exists>counts' uniq. reduce_step (counts, acc) name = (counts', acc @ [uniq])"
  by (simp add: reduce_step_def Let_def)

lemma length_foldl_reduce_step:
  "length (snd (foldl reduce_step (counts, acc) names)) = length acc + length names"
proof (induction names arbitrary: counts acc)
  case Nil
  show ?case by simp
next
  case (Cons name names)
  obtain counts' uniq where "reduce_step (counts, acc) name = (counts', acc @ [uniq])"
    using reduce_step_acc by blast
  then show ?case
    using Cons.IH [of counts' "acc @ [uniq]"] by simp
qed

lemma length_makeRepeatedUnique: "length (makeRepeatedUnique names) = length names"
  by (simp add: makeRepeatedUnique_def length_foldl_reduce_step)

text \<open>
  \<open>string_of_nat\<close> is the decimal notation: it is made of digits, and \<open>index_value\<close>
  reads the number back from it.
\<close>

lemma string_of_nat_digits:
  assumes "c \<in> set (string_of_nat n)"
  shows "c \<in> set ''0123456789''"
proof -
  define D where "D = set ''0123456789''"
  have digit: "digit_char d \<in> D" if "d < 10" for d
    unfolding D_def digit_char_def using that by (intro nth_mem) simp
  have "set (string_of_nat m) \<subseteq> D" for m
  proof (induction m rule: string_of_nat.induct)
    case (1 m)
    show ?case
    proof (cases "m < 10")
      case True
      then show ?thesis
        using digit [of m] by (simp add: string_of_nat.simps [of m])
    next
      case False
      then show ?thesis
        using 1 digit [of "m mod 10"] by (simp add: string_of_nat.simps [of m])
    qed
  qed
  then show ?thesis
    using assms unfolding D_def by blast
qed

lemma digit_value_digit_char: "d < 10 \<Longrightarrow> digit_value (digit_char d) = d"
proof -
  assume "d < 10"
  then have "d \<in> set [0..<10]" by simp
  then show ?thesis
    by (auto simp: upt_rec digit_value_def digit_char_def)
qed

lemma index_value_snoc: "index_value (k @ [c]) = 10 * index_value k + digit_value c"
  by (simp add: index_value_def)

lemma index_value_string_of_nat: "index_value (string_of_nat n) = n"
proof (induction n rule: string_of_nat.induct)
  case (1 n)
  show ?case
  proof (cases "n < 10")
    case True
    then show ?thesis
      by (simp add: string_of_nat.simps [of n] index_value_def digit_value_digit_char)
  next
    case False
    then show ?thesis
      using 1 by (simp add: string_of_nat.simps [of n] index_value_snoc digit_value_digit_char)
  qed
qed

lemma string_of_nat_inject: "string_of_nat m = string_of_nat n \<Longrightarrow> m = n"
  by (metis index_value_string_of_nat)

text \<open>A key that does not start with a digit is no array index.\<close>

lemma not_array_index:
  assumes "c \<notin> set ''0123456789''"
  shows "\<not> is_array_index (c # cs)"
proof
  assume "is_array_index (c # cs)"
  then have "string_of_nat (index_value (c # cs)) = c # cs"
    by (simp add: is_array_index_def)
  then have "c \<in> set (string_of_nat (index_value (c # cs)))"
    by simp
  then show False
    using assms string_of_nat_digits by blast
qed

text \<open>
  The keys of an object in the order the code lists them: b, 10, 2, a made in that
  order, then b and 2 written again.
\<close>

lemma set_property_order:
  "foldl set_property []
     [(''b'', 1 :: nat), (''10'', 2), (''2'', 3), (''a'', 4), (''b'', 5), (''2'', 6)]
   = [(''2'', 6), (''10'', 2), (''b'', 5), (''a'', 4)]"
  by (simp add: set_property_def not_array_index is_array_index_def index_value_def
      digit_value_def string_of_nat.simps digit_char_def)

lemma count_list_snoc:
  "count_list (xs @ [x]) y = count_list xs y + (if x = y then 1 else 0)"
  by (induction xs) auto

lemma foldl_reduce_step_suffix_repeated:
  assumes "set names \<inter> set object_prototype_names = {}"
    and "\<forall>n. n \<notin> set object_prototype_names \<longrightarrow>
           counts n = (if count_list seen n = 0 then None
                       else Some (Num (count_list seen n)))"
  shows "snd (foldl reduce_step (counts, acc) names) = acc @ suffix_repeated seen names"
  using assms
proof (induction names arbitrary: counts acc seen)
  case Nil
  show ?case by simp
next
  case (Cons name names)
  let ?k = "count_list seen name"
  let ?uniq = "if ?k = 0 then name else name @ ''_'' @ string_of_nat ?k"
  have name: "name \<notin> set object_prototype_names"
    using Cons.prems(1) by auto
  then have get: "counts_get counts name = (if ?k = 0 then None else Some (Num ?k))"
    using Cons.prems(2) by (simp add: counts_get_def)
  have step: "reduce_step (counts, acc) name = (counts(name \<mapsto> Num (?k + 1)), acc @ [?uniq])"
    by (simp add: reduce_step_def get Let_def)
  have "snd (foldl reduce_step (counts(name \<mapsto> Num (?k + 1)), acc @ [?uniq]) names)
      = (acc @ [?uniq]) @ suffix_repeated (seen @ [name]) names"
  proof (rule Cons.IH)
    show "set names \<inter> set object_prototype_names = {}"
      using Cons.prems(1) by auto
    show "\<forall>n. n \<notin> set object_prototype_names \<longrightarrow>
        (counts(name \<mapsto> Num (?k + 1))) n =
          (if count_list (seen @ [name]) n = 0 then None
           else Some (Num (count_list (seen @ [name]) n)))"
      using Cons.prems(2) by (auto simp: count_list_snoc)
  qed
  then show ?case
    by (simp add: step)
qed

text \<open>
  On names that \<open>Object.prototype\<close> does not have, \<open>makeRepeatedUnique\<close> is the renaming
  of the specification: bare name first, then \<open>_1\<close>, \<open>_2\<close>, and so on.
\<close>

lemma makeRepeatedUnique_suffix_repeated:
  "set names \<inter> set object_prototype_names = {}
     \<Longrightarrow> makeRepeatedUnique names = suffix_repeated [] names"
  using foldl_reduce_step_suffix_repeated [of names Map.empty "[]" "[]"]
  by (simp add: makeRepeatedUnique_def)

lemma makeRepeatedUnique_foo_foo_bar:
  "makeRepeatedUnique [''foo'', ''foo'', ''bar''] = [''foo'', ''foo_1'', ''bar'']"
  by (simp add: makeRepeatedUnique_def reduce_step_def counts_get_def Let_def
      object_prototype_names_def string_of_nat.simps digit_char_def)

lemma makeRepeatedUnique_foo_thrice:
  "makeRepeatedUnique [''foo'', ''foo'', ''foo''] = [''foo'', ''foo_1'', ''foo_2'']"
  by (simp add: makeRepeatedUnique_def reduce_step_def counts_get_def Let_def
      object_prototype_names_def string_of_nat.simps digit_char_def)

text \<open>A name that \<open>Object.prototype\<close> has is never renamed.\<close>

lemma makeRepeatedUnique_constructor:
  "makeRepeatedUnique [''constructor'', ''constructor''] = [''constructor'', ''constructor'']"
  by (simp add: makeRepeatedUnique_def reduce_step_def counts_get_def Let_def
      object_prototype_names_def)

text \<open>
  The fields foo, foo, bar, all of whose invocations return without an \<open>error\<close>: the
  data of the result has exactly the keys foo, foo_1, bar, in that order, each with
  the data of its field, and \<open>errors\<close> is absent.
\<close>

lemma query_foo_foo_bar:
  assumes parse: "parse_options K options = Inr [i1, i2, i3]"
    and fields: "method i1 = ''foo''" "method i2 = ''foo''" "method i3 = ''bar''"
    and run: "invoke_all K c [i1, i2, i3] = (Inr invocations, c1)"
    and ok: "\<forall>invocation \<in> set invocations. error (snd invocation) = None"
  shows "\<exists>d. query K c options = (Inr \<lparr>query_data = Some d, errors = None\<rparr>, c1) \<and>
           map fst d = [''foo'', ''foo_1'', ''bar''] \<and>
           map snd d = map (\<lambda>invocation. data (snd invocation)) invocations"
proof -
  have "map fst invocations = [''foo'', ''foo'', ''bar'']"
    using invoke_all_returns [of K c "[i1, i2, i3]"] run fields by auto
  then obtain r1 r2 r3 where
    invs: "invocations = [(''foo'', r1), (''foo'', r2), (''bar'', r3)]"
    by auto
  have "List.map_filter (\<lambda>invocation. error (snd invocation)) invocations = []"
    using ok by (rule map_filter_all_None)
  then have "aggregate invocations =
      \<lparr>query_data = Some [(''foo'', data r1), (''foo_1'', data r2), (''bar'', data r3)],
       errors = None\<rparr>"
    by (simp add: aggregate_def invs makeRepeatedUnique_foo_foo_bar set_property_def
        not_array_index)
  then show ?thesis
    using parse run by (simp add: query_def query_try_def invs)
qed

lemma query_foo_foo_bar_example:
  "\<exists>c1. query (example_collaborators [(''foo'', 1), (''foo'', 2), (''bar'', 3)])
          example_client example_query
     = (Inr \<lparr>query_data = Some [(''foo'', Some 1), (''foo_1'', Some 2), (''bar'', Some 3)],
              errors = None\<rparr>, c1)"
proof -
  let ?K = "example_collaborators [(''foo'', 1), (''foo'', 2), (''bar'', 3)]"
  let ?i = "\<lambda>m n. \<lparr>options_uri = simple_uri ''a.eth'', method = m,
                     input = [(''n'', n :: nat)], decode = False\<rparr>"
  have parse: "parse_options ?K example_query = Inr [?i ''foo'' 1, ?i ''foo'' 2, ?i ''bar'' 3]"
    by (simp add: parse_example)
  obtain c1 where run: "invoke_all ?K example_client [?i ''foo'' 1, ?i ''foo'' 2, ?i ''bar'' 3]
      = (Inr [(''foo'', \<lparr>data = Some 1, error = None\<rparr>),
              (''foo'', \<lparr>data = Some 2, error = None\<rparr>),
              (''bar'', \<lparr>data = Some 3, error = None\<rparr>)], c1)"
    using invoke_all_example
        [of "[(''foo'', 1), (''foo'', 2), (''bar'', 3)]" "''foo''" 1 "''foo''" 2 "''bar''" 3]
    by auto
  from query_foo_foo_bar [OF parse _ _ _ run]
  obtain d where "query ?K example_client example_query
        = (Inr \<lparr>query_data = Some d, errors = None\<rparr>, c1)"
      "map fst d = [''foo'', ''foo_1'', ''bar'']" "map snd d = [Some 1, Some 2, Some 3]"
    by auto
  moreover from this have "d = [(''foo'', Some 1), (''foo_1'', Some 2), (''bar'', Some 3)]"
    by (auto simp: map_eq_Cons_conv)
  ultimately show ?thesis by blast
qed

text \<open>
  C4. The rule that a repeated name keeps the bare name first and takes \<open>_1\<close>, \<open>_2\<close>
  after does not hold of every name. For the fields constructor, constructor, bar,
  all succeeding, \<open>makeRepeatedUnique\<close> leaves the second constructor as it is, where
  the rule gives constructor_1. The data of the result has the two keys constructor
  and bar, and the data of the first field, 1, is gone: the second field has
  overwritten it.
\<close>

theorem makeRepeatedUnique_prototype_name:
  "makeRepeatedUnique [''constructor'', ''constructor'', ''bar'']
     = [''constructor'', ''constructor'', ''bar''] \<and>
   suffix_repeated [] [''constructor'', ''constructor'', ''bar'']
     = [''constructor'', ''constructor_1'', ''bar''] \<and>
   fst (query (example_collaborators [(''constructor'', 1), (''constructor'', 2), (''bar'', 3)])
          example_client example_query)
     = Inr \<lparr>query_data = Some [(''constructor'', Some 2), (''bar'', Some 3)],
             errors = None\<rparr>"
proof -
  let ?K = "example_collaborators [(''constructor'', 1), (''constructor'', 2), (''bar'', 3)]"
  let ?i = "\<lambda>m n. \<lparr>options_uri = simple_uri ''a.eth'', method = m,
                     input = [(''n'', n :: nat)], decode = False\<rparr>"
  have keys: "makeRepeatedUnique [''constructor'', ''constructor'', ''bar'']
      = [''constructor'', ''constructor'', ''bar'']"
    by (simp add: makeRepeatedUnique_def reduce_step_def counts_get_def Let_def
        object_prototype_names_def)
  have rule: "suffix_repeated [] [''constructor'', ''constructor'', ''bar'']
      = [''constructor'', ''constructor_1'', ''bar'']"
    by (simp add: string_of_nat.simps digit_char_def)
  have parse: "parse_options ?K example_query
      = Inr [?i ''constructor'' 1, ?i ''constructor'' 2, ?i ''bar'' 3]"
    by (simp add: parse_example)
  obtain c1 where run:
    "invoke_all ?K example_client [?i ''constructor'' 1, ?i ''constructor'' 2, ?i ''bar'' 3]
      = (Inr [(''constructor'', \<lparr>data = Some 1, error = None\<rparr>),
              (''constructor'', \<lparr>data = Some 2, error = None\<rparr>),
              (''bar'', \<lparr>data = Some 3, error = None\<rparr>)], c1)"
    using invoke_all_example
        [of "[(''constructor'', 1), (''constructor'', 2), (''bar'', 3)]"
            "''constructor''" 1 "''constructor''" 2 "''bar''" 3]
    by auto
  have "query ?K example_client example_query
      = (Inr \<lparr>query_data = Some [(''constructor'', Some 2), (''bar'', Some 3)],
               errors = None\<rparr>, c1)"
    using parse run
    by (simp add: query_def query_try_def aggregate_def keys set_property_def
        not_array_index map_filter_simps)
  then show ?thesis
    using keys rule by simp
qed

text \<open>
  C5. The keys that \<open>makeRepeatedUnique\<close> gives are not always pairwise distinct. For
  the fields foo, foo, foo_1 it gives foo, foo_1, foo_1: the second foo takes the name
  of the third field. The data of the result then has two keys, and the data of the
  second field, 2, is gone: the third field has overwritten it.
\<close>

theorem makeRepeatedUnique_collision:
  "makeRepeatedUnique [''foo'', ''foo'', ''foo_1''] = [''foo'', ''foo_1'', ''foo_1''] \<and>
   fst (query (example_collaborators [(''foo'', 1), (''foo'', 2), (''foo_1'', 3)])
          example_client example_query)
     = Inr \<lparr>query_data = Some [(''foo'', Some 1), (''foo_1'', Some 3)], errors = None\<rparr>"
proof -
  let ?K = "example_collaborators [(''foo'', 1), (''foo'', 2), (''foo_1'', 3)]"
  let ?i = "\<lambda>m n. \<lparr>options_uri = simple_uri ''a.eth'', method = m,
                     input = [(''n'', n :: nat)], decode = False\<rparr>"
  have keys: "makeRepeatedUnique [''foo'', ''foo'', ''foo_1''] = [''foo'', ''foo_1'', ''foo_1'']"
    by (simp add: makeRepeatedUnique_def reduce_step_def counts_get_def Let_def
        object_prototype_names_def string_of_nat.simps digit_char_def)
  have parse: "parse_options ?K example_query
      = Inr [?i ''foo'' 1, ?i ''foo'' 2, ?i ''foo_1'' 3]"
    by (simp add: parse_example)
  obtain c1 where run:
    "invoke_all ?K example_client [?i ''foo'' 1, ?i ''foo'' 2, ?i ''foo_1'' 3]
      = (Inr [(''foo'', \<lparr>data = Some 1, error = None\<rparr>),
              (''foo'', \<lparr>data = Some 2, error = None\<rparr>),
              (''foo_1'', \<lparr>data = Some 3, error = None\<rparr>)], c1)"
    using invoke_all_example
        [of "[(''foo'', 1), (''foo'', 2), (''foo_1'', 3)]" "''foo''" 1 "''foo''" 2 "''foo_1''" 3]
    by auto
  have "query ?K example_client example_query
      = (Inr \<lparr>query_data = Some [(''foo'', Some 1), (''foo_1'', Some 3)], errors = None\<rparr>, c1)"
    using parse run
    by (simp add: query_def query_try_def aggregate_def keys set_property_def
        not_array_index map_filter_simps)
  then show ?thesis
    using keys by simp
qed

subsection \<open>Partial failure\<close>

lemma update_new_key:
  "k \<notin> fst ` set obj \<Longrightarrow> AList.update k v obj = obj @ [(k, v)]"
  by (induction obj) auto

lemma foldl_set_property_distinct:
  "distinct (map fst obj @ ks) \<Longrightarrow> ''__proto__'' \<notin> set ks
     \<Longrightarrow> list_all (\<lambda>k. \<not> is_array_index k) ks \<Longrightarrow> length ks = length vs
     \<Longrightarrow> foldl set_property obj (zip ks vs) = obj @ zip ks vs"
proof (induction ks arbitrary: obj vs)
  case Nil
  then show ?case by simp
next
  case (Cons k ks)
  then obtain v vs' where vs: "vs = v # vs'"
    by (cases vs) auto
  have "set_property obj (k, v) = obj @ [(k, v)]"
    using Cons.prems(1,2,3) by (auto simp: set_property_def update_new_key)
  moreover have "distinct (map fst (obj @ [(k, v)]) @ ks)"
    using Cons.prems(1) by auto
  ultimately show ?case
    using Cons.IH [of "obj @ [(k, v)]" vs'] Cons.prems(2,3,4) by (simp add: vs)
qed

text \<open>
  One invocation whose result carries an \<open>error\<close> and no data, every other invocation
  returning without an \<open>error\<close>: the query does not fail, its result has data, and
  \<open>errors\<close> is the list of that one error. When the keys are pairwise distinct, none is
  \<open>__proto__\<close> and none is an array index, the data maps every key to the data of its
  field, in the order of the fields: the failed field to \<open>undefined\<close>, each other
  field to what its invocation returned.
\<close>

lemma query_partial_failure_distinct_keys:
  assumes parse: "parse_options K options = Inr invokeOptions"
    and run: "invoke_all K c invokeOptions = (Inr invocations, c1)"
    and i: "i < length invocations"
    and failed: "error (snd (invocations ! i)) = Some e" "data (snd (invocations ! i)) = None"
    and others: "\<forall>j < length invocations. j \<noteq> i \<longrightarrow> error (snd (invocations ! j)) = None"
  shows "\<exists>d. query K c options = (Inr \<lparr>query_data = Some d, errors = Some [e]\<rparr>, c1) \<and>
           (distinct (makeRepeatedUnique (map method invokeOptions)) \<and>
            ''__proto__'' \<notin> set (makeRepeatedUnique (map method invokeOptions)) \<and>
            list_all (\<lambda>k. \<not> is_array_index k) (makeRepeatedUnique (map method invokeOptions))
            \<longrightarrow>
              d = zip (makeRepeatedUnique (map method invokeOptions))
                      (map (\<lambda>invocation. data (snd invocation)) invocations) \<and>
              map_of d (makeRepeatedUnique (map method invokeOptions) ! i) = Some None \<and>
              (\<forall>j < length invocations. j \<noteq> i \<longrightarrow>
                 map_of d (makeRepeatedUnique (map method invokeOptions) ! j)
                   = Some (data (snd (invocations ! j)))))"
proof -
  let ?keys = "makeRepeatedUnique (map method invokeOptions)"
  let ?vals = "map (\<lambda>invocation. data (snd invocation)) invocations"
  let ?d = "foldl set_property [] (zip ?keys ?vals)"
  have methods: "map fst invocations = map method invokeOptions"
    using invoke_all_returns [of K c invokeOptions] run by auto
  then have len: "length ?keys = length ?vals"
    by (metis length_makeRepeatedUnique length_map)
  have errs: "List.map_filter (\<lambda>invocation. error (snd invocation)) invocations = [e]"
    using i failed(1) others by (rule map_filter_single)
  have q: "query K c options = (Inr \<lparr>query_data = Some ?d, errors = Some [e]\<rparr>, c1)"
    using parse run methods errs
    by (simp add: query_def query_try_def aggregate_def Let_def)
  have rest: "?d = zip ?keys ?vals \<and> map_of ?d (?keys ! i) = Some None \<and>
      (\<forall>j < length invocations. j \<noteq> i \<longrightarrow>
         map_of ?d (?keys ! j) = Some (data (snd (invocations ! j))))"
    if d: "distinct ?keys" and p: "''__proto__'' \<notin> set ?keys"
      and a: "list_all (\<lambda>k. \<not> is_array_index k) ?keys"
  proof -
    have eq: "?d = zip ?keys ?vals"
      using foldl_set_property_distinct [of "[]" ?keys ?vals] d p a len by simp
    have nth: "map_of (zip ?keys ?vals) (?keys ! j) = Some (?vals ! j)"
      if "j < length invocations" for j
      using map_of_zip_nth [OF len d, of j] that by simp
    show ?thesis
      using eq nth i failed(2) by simp
  qed
  show ?thesis
    using q rest by blast
qed

lemma query_partial_failure_example:
  "\<exists>c1. query (example_collaborators [(''foo'', 1), (''fail'', 2), (''bar'', 3)])
          example_client example_query
     = (Inr \<lparr>query_data = Some [(''foo'', Some 1), (''fail'', None), (''bar'', Some 3)],
              errors = Some [Error ''plugin failed'']\<rparr>, c1)"
proof -
  let ?K = "example_collaborators [(''foo'', 1), (''fail'', 2), (''bar'', 3)]"
  let ?i = "\<lambda>m n. \<lparr>options_uri = simple_uri ''a.eth'', method = m,
                     input = [(''n'', n :: nat)], decode = False\<rparr>"
  let ?invocations = "[(''foo'', \<lparr>data = Some (1 :: nat), error = None\<rparr>),
              (''fail'', \<lparr>data = None, error = Some (Error ''plugin failed'')\<rparr>),
              (''bar'', \<lparr>data = Some 3, error = None\<rparr>)]"
  have parse: "parse_options ?K example_query = Inr [?i ''foo'' 1, ?i ''fail'' 2, ?i ''bar'' 3]"
    by (simp add: parse_example)
  obtain c1 where run:
    "invoke_all ?K example_client [?i ''foo'' 1, ?i ''fail'' 2, ?i ''bar'' 3]
      = (Inr ?invocations, c1)"
    using invoke_all_example
        [of "[(''foo'', 1), (''fail'', 2), (''bar'', 3)]" "''foo''" 1 "''fail''" 2 "''bar''" 3]
    by auto
  have keys: "makeRepeatedUnique [''foo'', ''fail'', ''bar''] = [''foo'', ''fail'', ''bar'']"
    by (simp add: makeRepeatedUnique_def reduce_step_def counts_get_def Let_def
        object_prototype_names_def)
  have others: "\<forall>j < length ?invocations. j \<noteq> 1 \<longrightarrow> error (snd (?invocations ! j)) = None"
    by (simp add: nth_Cons split: nat.splits)
  from query_partial_failure_distinct_keys [OF parse run, of 1 "Error ''plugin failed''"] others
  show ?thesis
    by (auto simp: keys not_array_index)
qed

lemma parse_failing:
  "parse_options (example_failing m calls) options
     = parse_options (example_collaborators calls) options"
  by (simp add: parse_options_def example_failing_def split: query_source.splits sum.splits)

lemma start_failing:
  "invoke_start (example_failing m calls) c options
     = invoke_start (example_collaborators calls) c options"
  by (simp add: invoke_start_def loadWeb3Api_start_def example_failing_def
      split: sum.splits option.splits)

lemma invoke_failing:
  "invoke_finish (example_failing f calls) c
      \<lparr>options_uri = u, method = m, input = [(''n'', n)], decode = d\<rparr>
      (Loading t (Resolving (Inr (FoundPlugin t' p))))
   = ((if m = f \<or> m = ''fail'' then Inr \<lparr>data = None, error = Some (Error ''plugin failed'')\<rparr>
       else Inr \<lparr>data = Some n, error = None\<rparr>),
      c\<lparr>apiCache := (apiCache c)(uri t \<mapsto> PluginWeb3Api (instantiated c) t' p),
        instantiated := Suc (instantiated c)\<rparr>)"
  by (simp add: invoke_finish_def example_failing_def example_plugin_def)

text \<open>
  C6. A query of three fields, two succeeding and one failing, whose data does not
  hold the two successful values. The fields are foo, foo, foo_1 with the arguments
  1, 2, 3, and the plugin throws in foo_1. The query returns, and \<open>errors\<close> holds the
  one error; but the keys are foo, foo_1, foo_1, so the data has two keys: foo with
  1, and foo_1 with \<open>undefined\<close>. The data of the second field, 2, is gone: the failed
  field has overwritten it.
\<close>

theorem query_partial_failure_collision:
  "fst (query (example_failing ''foo_1'' [(''foo'', 1), (''foo'', 2), (''foo_1'', 3)])
          example_client example_query)
     = Inr \<lparr>query_data = Some [(''foo'', Some 1), (''foo_1'', None)],
             errors = Some [Error ''plugin failed'']\<rparr>"
proof -
  let ?K = "example_failing ''foo_1'' [(''foo'', 1), (''foo'', 2), (''foo_1'', 3)]"
  let ?i = "\<lambda>m n. \<lparr>options_uri = simple_uri ''a.eth'', method = m,
                     input = [(''n'', n :: nat)], decode = False\<rparr>"
  have keys: "makeRepeatedUnique [''foo'', ''foo'', ''foo_1''] = [''foo'', ''foo_1'', ''foo_1'']"
    by (simp add: makeRepeatedUnique_def reduce_step_def counts_get_def Let_def
        object_prototype_names_def string_of_nat.simps digit_char_def)
  have parse: "parse_options ?K example_query
      = Inr [?i ''foo'' 1, ?i ''foo'' 2, ?i ''foo_1'' 3]"
    by (simp add: parse_failing parse_example)
  obtain c1 where run:
    "invoke_all ?K example_client [?i ''foo'' 1, ?i ''foo'' 2, ?i ''foo_1'' 3]
      = (Inr [(''foo'', \<lparr>data = Some 1, error = None\<rparr>),
              (''foo'', \<lparr>data = Some 2, error = None\<rparr>),
              (''foo_1'', \<lparr>data = None, error = Some (Error ''plugin failed'')\<rparr>)], c1)"
    by (simp add: invoke_all_def as_invoke_options_def uri_simple start_failing
        start_example [of _ "''a.eth''", simplified] resolve_example_a invoke_failing)
  have "query ?K example_client example_query
      = (Inr \<lparr>query_data = Some [(''foo'', Some 1), (''foo_1'', None)],
               errors = Some [Error ''plugin failed'']\<rparr>, c1)"
    using parse run
    by (simp add: query_def query_try_def aggregate_def keys set_property_def
        not_array_index map_filter_simps)
  then show ?thesis
    by simp
qed

end
